theory Spec2Isabelle
  imports Complex_Main "HOL-Library.Sublist"
begin

section \<open>Data model (src/types/index.ts)\<close>

text \<open>
  \<^verbatim>\<open>gender: 'male' | 'female' | 'other'\<close> is a closed union of three literals.
\<close>

datatype gender = Male | Female | Other

text \<open>
  \<^verbatim>\<open>RegistrantFormData = Omit<Registrant, 'id' | 'createdAt' | 'photoPath'> & { photo?: File }\<close>.
  The form data carries the mutable attributes of a registrant; \<^verbatim>\<open>Registrant\<close> has the
  same attributes plus \<^verbatim>\<open>id\<close>, \<^verbatim>\<open>photoPath\<close> and \<^verbatim>\<open>createdAt\<close>, so it is the
  record extension. The optional \<^verbatim>\<open>photoData?: string\<close> is a \<open>string option\<close>
  (\<open>None\<close> is \<^verbatim>\<open>undefined\<close>). The \<^verbatim>\<open>photo?: File\<close> attribute is never read by the
  registration service and is left out. The field \<^verbatim>\<open>id\<close> is named \<open>id_r\<close>, since
  \<open>id\<close> is the identity function of HOL.
\<close>

record RegistrantFormData =
  fullName :: string
  email :: string
  phone :: string
  address :: string
  gender :: gender
  dateOfBirth :: string
  photoData :: "string option"

record Registrant = RegistrantFormData +
  id_r :: string
  photoPath :: string
  createdAt :: string

text \<open>The \<^verbatim>\<open>Admin\<close> interface of src/contexts/AuthContext.tsx.\<close>

record Admin =
  username :: string
  isAuthenticated :: bool

section \<open>The browser's local storage and the platform\<close>

text \<open>
  The program uses two keys of \<^verbatim>\<open>localStorage\<close>: \<^verbatim>\<open>'registrants'\<close> and \<^verbatim>\<open>'admin'\<close>.
  An item is \<open>None\<close> when \<^verbatim>\<open>getItem\<close> returns \<^verbatim>\<open>null\<close>. The values are written with
  \<^verbatim>\<open>JSON.stringify\<close> and read with \<^verbatim>\<open>JSON.parse\<close>; on the records above the two are
  inverse to each other (an \<^verbatim>\<open>undefined\<close> attribute is dropped when written and is
  \<^verbatim>\<open>undefined\<close> again when read), so an item holds the parsed value.
\<close>

record Storage =
  registrants_item :: "Registrant list option"
  admin_item :: "Admin option"

text \<open>
  What the platform hands to one call of the service: the value of
  \<^verbatim>\<open>crypto.randomUUID()\<close>, of \<^verbatim>\<open>Date.now()\<close> (milliseconds) and of
  \<^verbatim>\<open>new Date().toISOString()\<close>.
\<close>

record Env =
  randomUUID :: string
  now :: int
  toISOString :: string

text \<open>JavaScript truthiness of an optional string: \<^verbatim>\<open>undefined\<close> and \<^verbatim>\<open>''\<close> are falsy.\<close>

fun truthy :: "string option \<Rightarrow> bool" where
  "truthy None = False"
| "truthy (Some s) = (s \<noteq> [])"

text \<open>Decimal rendering of a number inside a template literal.\<close>

definition digit_char :: "nat \<Rightarrow> char" where
  "digit_char d = ''0123456789'' ! d"

fun string_of_nat :: "nat \<Rightarrow> string" where
  "string_of_nat n =
     (if n < 10 then [digit_char n]
      else string_of_nat (n div 10) @ [digit_char (n mod 10)])"

declare string_of_nat.simps [simp del]

definition string_of_int :: "int \<Rightarrow> string" where
  "string_of_int i = (if i < 0 then CHR ''-'' # string_of_nat (nat (- i)) else string_of_nat (nat i))"

text \<open>\<^verbatim>\<open>`photo_${Date.now()}.jpg`\<close>\<close>

definition photo_label :: "int \<Rightarrow> string" where
  "photo_label t = ''photo_'' @ string_of_int t @ ''.jpg''"

text \<open>
  Reading a decimal numeral, written independently of the rendering above: the digits
  \<^verbatim>\<open>0\<close>..\<^verbatim>\<open>9\<close> only, no leading zero except in the numeral \<^verbatim>\<open>0\<close> itself, and a
  minus sign only before a numeral that is not zero. A string has at most one value.
\<close>

definition digit_of_char :: "char \<Rightarrow> nat option" where
  "digit_of_char c = map_of (zip ''0123456789'' [0, 1, 2, 3, 4, 5, 6, 7, 8, 9]) c"

fun digits_value :: "nat \<Rightarrow> string \<Rightarrow> nat option" where
  "digits_value acc [] = Some acc"
| "digits_value acc (c # cs) =
     (case digit_of_char c of None \<Rightarrow> None | Some d \<Rightarrow> digits_value (10 * acc + d) cs)"

definition nat_of_decimal :: "string \<Rightarrow> nat option" where
  "nat_of_decimal ds =
     (case ds of
        [] \<Rightarrow> None
      | c # cs \<Rightarrow> if c = CHR ''0'' \<and> cs \<noteq> [] then None else digits_value 0 ds)"

definition int_of_decimal :: "string \<Rightarrow> int option" where
  "int_of_decimal ds =
     (case ds of
        [] \<Rightarrow> None
      | c # cs \<Rightarrow>
          if c = CHR ''-'' then
            (case nat_of_decimal cs of
               None \<Rightarrow> None
             | Some n \<Rightarrow> if n = 0 then None else Some (- int n))
          else map_option int (nat_of_decimal ds))"

section \<open>The registration service (services/registrationService.ts)\<close>

text \<open>
  \<^verbatim>\<open>
  const initializeStorage = (): void => {
    if (!localStorage.getItem(STORAGE_KEY)) {
      localStorage.setItem(STORAGE_KEY, JSON.stringify([]));
    }
  };
  \<close>
\<close>

definition initializeStorage :: "Storage \<Rightarrow> Storage" where
  "initializeStorage s =
     (if registrants_item s = None then s\<lparr>registrants_item := Some []\<rparr> else s)"

text \<open>
  \<^verbatim>\<open>
  export const getAllRegistrants = (): Registrant[] => {
    initializeStorage();
    return JSON.parse(localStorage.getItem(STORAGE_KEY) || '[]');
  };
  \<close>
  Every operation returns its result and the storage it leaves.
\<close>

definition getAllRegistrants :: "Storage \<Rightarrow> Registrant list \<times> Storage" where
  "getAllRegistrants s =
     (let s' = initializeStorage s
      in (case registrants_item s' of None \<Rightarrow> [] | Some rs \<Rightarrow> rs, s'))"

text \<open>
  \<^verbatim>\<open>
  export const getRegistrantById = (id: string): Registrant | undefined => {
    const registrants = getAllRegistrants();
    return registrants.find(registrant => registrant.id === id);
  };
  \<close>
\<close>

definition getRegistrantById :: "string \<Rightarrow> Storage \<Rightarrow> Registrant option \<times> Storage" where
  "getRegistrantById i s =
     (let (registrants, s') = getAllRegistrants s
      in (find (\<lambda>registrant. id_r registrant = i) registrants, s'))"

text \<open>
  \<^verbatim>\<open>
  export const addRegistrant = async (data: RegistrantFormData): Promise<Registrant> => {
    const registrants = getAllRegistrants();
    const newRegistrant: Registrant = {
      id: crypto.randomUUID(),
      fullName: data.fullName, email: data.email, phone: data.phone,
      address: data.address, gender: data.gender, dateOfBirth: data.dateOfBirth,
      photoData: data.photoData,
      photoPath: data.photoData ? `photo_${Date.now()}.jpg` : '',
      createdAt: new Date().toISOString(),
    };
    registrants.push(newRegistrant);
    localStorage.setItem(STORAGE_KEY, JSON.stringify(registrants));
    return newRegistrant;
  };
  \<close>
  The function is \<^verbatim>\<open>async\<close> but awaits nothing: its body runs to the end when it is
  called, and the promise resolves with the returned record.
\<close>

definition addRegistrant :: "Env \<Rightarrow> RegistrantFormData \<Rightarrow> Storage \<Rightarrow> Registrant \<times> Storage" where
  "addRegistrant env data s =
     (let (registrants, s') = getAllRegistrants s;
          newRegistrant =
            \<lparr> fullName = fullName data,
              email = email data,
              phone = phone data,
              address = address data,
              gender = gender data,
              dateOfBirth = dateOfBirth data,
              photoData = photoData data,
              id_r = randomUUID env,
              photoPath = (if truthy (photoData data) then photo_label (now env) else []),
              createdAt = toISOString env \<rparr>
      in (newRegistrant, s'\<lparr>registrants_item := Some (registrants @ [newRegistrant])\<rparr>))"

text \<open>\<^verbatim>\<open>Array.prototype.findIndex\<close>; \<open>None\<close> is the result \<^verbatim>\<open>-1\<close>.\<close>

fun findIndex :: "('a \<Rightarrow> bool) \<Rightarrow> 'a list \<Rightarrow> nat option" where
  "findIndex P [] = None"
| "findIndex P (x # xs) = (if P x then Some 0 else map_option Suc (findIndex P xs))"

text \<open>
  \<^verbatim>\<open>
  export const updateRegistrant = async (id: string, data: RegistrantFormData)
      : Promise<Registrant | null> => {
    const registrants = getAllRegistrants();
    const index = registrants.findIndex(registrant => registrant.id === id);
    if (index === -1) {
      return null;
    }
    const updatedRegistrant: Registrant = {
      ...registrants[index],
      fullName: data.fullName, email: data.email, phone: data.phone,
      address: data.address, gender: data.gender, dateOfBirth: data.dateOfBirth,
      photoData: data.photoData || registrants[index].photoData,
      photoPath: data.photoData
        ? `photo_${Date.now()}.jpg`
        : registrants[index].photoPath,
    };
    registrants[index] = updatedRegistrant;
    localStorage.setItem(STORAGE_KEY, JSON.stringify(registrants));
    return updatedRegistrant;
  };
  \<close>
  The index read by \<open>!\<close> is the one \<open>findIndex\<close> returned, so it is in range.
\<close>

definition updatedRegistrant :: "Env \<Rightarrow> RegistrantFormData \<Rightarrow> Registrant \<Rightarrow> Registrant" where
  "updatedRegistrant env data old =
     old\<lparr> fullName := fullName data,
          email := email data,
          phone := phone data,
          address := address data,
          gender := gender data,
          dateOfBirth := dateOfBirth data,
          photoData := (if truthy (photoData data) then photoData data else photoData old),
          photoPath := (if truthy (photoData data) then photo_label (now env) else photoPath old) \<rparr>"

definition updateRegistrant ::
  "Env \<Rightarrow> string \<Rightarrow> RegistrantFormData \<Rightarrow> Storage \<Rightarrow> Registrant option \<times> Storage" where
  "updateRegistrant env i data s =
     (let (registrants, s') = getAllRegistrants s
      in case findIndex (\<lambda>registrant. id_r registrant = i) registrants of
           None \<Rightarrow> (None, s')
         | Some index \<Rightarrow>
             (let upd = updatedRegistrant env data (registrants ! index)
              in (Some upd, s'\<lparr>registrants_item := Some (registrants[index := upd])\<rparr>)))"

text \<open>
  \<^verbatim>\<open>
  export const deleteRegistrant = (id: string): boolean => {
    const registrants = getAllRegistrants();
    const filteredRegistrants = registrants.filter(registrant => registrant.id !== id);
    if (filteredRegistrants.length === registrants.length) {
      return false;
    }
    localStorage.setItem(STORAGE_KEY, JSON.stringify(filteredRegistrants));
    return true;
  };
  \<close>
\<close>

definition deleteRegistrant :: "string \<Rightarrow> Storage \<Rightarrow> bool \<times> Storage" where
  "deleteRegistrant i s =
     (let (registrants, s') = getAllRegistrants s;
          filteredRegistrants = filter (\<lambda>registrant. id_r registrant \<noteq> i) registrants
      in if length filteredRegistrants = length registrants then (False, s')
         else (True, s'\<lparr>registrants_item := Some filteredRegistrants\<rparr>))"

text \<open>
  The persisted collection: the sequence of records under the key \<^verbatim>\<open>'registrants'\<close>,
  an absent key being the empty sequence (what \<open>getAllRegistrants\<close> returns).
\<close>

definition collection :: "Storage \<Rightarrow> Registrant list" where
  "collection s = (case registrants_item s of None \<Rightarrow> [] | Some rs \<Rightarrow> rs)"

section \<open>Sequences of store operations\<close>

text \<open>
  A caller of the service issues operations one after the other; each \<open>Create\<close> and
  \<open>Update\<close> carries what the platform returns during that call.
\<close>

datatype operation =
    Create Env RegistrantFormData
  | Update Env string RegistrantFormData
  | Delete string
  | GetAll
  | GetById string

fun perform :: "operation \<Rightarrow> Storage \<Rightarrow> Storage" where
  "perform (Create env data) s = snd (addRegistrant env data s)"
| "perform (Update env i data) s = snd (updateRegistrant env i data s)"
| "perform (Delete i) s = snd (deleteRegistrant i s)"
| "perform GetAll s = snd (getAllRegistrants s)"
| "perform (GetById i) s = snd (getRegistrantById i s)"

fun run :: "operation list \<Rightarrow> Storage \<Rightarrow> Storage" where
  "run [] s = s"
| "run (x # xs) s = run xs (perform x s)"

text \<open>The records returned by the \<open>Create\<close> operations of a run, in order.\<close>

fun returned :: "operation \<Rightarrow> Storage \<Rightarrow> Registrant list" where
  "returned (Create env data) s = [fst (addRegistrant env data s)]"
| "returned _ s = []"

fun created :: "operation list \<Rightarrow> Storage \<Rightarrow> Registrant list" where
  "created [] s = []"
| "created (x # xs) s = returned x s @ created xs (perform x s)"

text \<open>The values \<^verbatim>\<open>crypto.randomUUID()\<close> returned during a run, in order.\<close>

fun issued :: "operation list \<Rightarrow> string list" where
  "issued [] = []"
| "issued (Create env data # xs) = randomUUID env # issued xs"
| "issued (_ # xs) = issued xs"

section \<open>The query and view layer (components/AdminDashboard.tsx)\<close>

text \<open>
  A character of a string is one UTF-16 code unit, and the characters of HOL are the code
  units U+0000 to U+00FF (ISO 8859-1). On these \<^verbatim>\<open>toLowerCase\<close> works character by
  character: it maps \<^verbatim>\<open>A\<close>..\<^verbatim>\<open>Z\<close> to \<^verbatim>\<open>a\<close>..\<^verbatim>\<open>z\<close> and the accented capitals
  U+00C0..U+00DE (without the multiplication sign U+00D7) to U+00E0..U+00FE, and leaves
  every other character. The white space and line terminators that \<^verbatim>\<open>trim\<close> removes
  are, in this range, TAB, LF, VT, FF, CR, SPACE and the no-break space U+00A0.
\<close>

definition capitals :: string where
  "capitals =
     ''ABCDEFGHIJKLMNOPQRSTUVWXYZ'' @
     [CHR 0xC0, CHR 0xC1, CHR 0xC2, CHR 0xC3, CHR 0xC4, CHR 0xC5, CHR 0xC6, CHR 0xC7,
      CHR 0xC8, CHR 0xC9, CHR 0xCA, CHR 0xCB, CHR 0xCC, CHR 0xCD, CHR 0xCE, CHR 0xCF,
      CHR 0xD0, CHR 0xD1, CHR 0xD2, CHR 0xD3, CHR 0xD4, CHR 0xD5, CHR 0xD6,
      CHR 0xD8, CHR 0xD9, CHR 0xDA, CHR 0xDB, CHR 0xDC, CHR 0xDD, CHR 0xDE]"

definition smalls :: string where
  "smalls =
     ''abcdefghijklmnopqrstuvwxyz'' @
     [CHR 0xE0, CHR 0xE1, CHR 0xE2, CHR 0xE3, CHR 0xE4, CHR 0xE5, CHR 0xE6, CHR 0xE7,
      CHR 0xE8, CHR 0xE9, CHR 0xEA, CHR 0xEB, CHR 0xEC, CHR 0xED, CHR 0xEE, CHR 0xEF,
      CHR 0xF0, CHR 0xF1, CHR 0xF2, CHR 0xF3, CHR 0xF4, CHR 0xF5, CHR 0xF6,
      CHR 0xF8, CHR 0xF9, CHR 0xFA, CHR 0xFB, CHR 0xFC, CHR 0xFD, CHR 0xFE]"

definition toLowerCase_char :: "char \<Rightarrow> char" where
  "toLowerCase_char c = (case map_of (zip capitals smalls) c of None \<Rightarrow> c | Some l \<Rightarrow> l)"

definition toLowerCase :: "string \<Rightarrow> string" where
  "toLowerCase s = map toLowerCase_char s"

definition isWhiteSpace :: "char \<Rightarrow> bool" where
  "isWhiteSpace c =
     (c \<in> set [CHR 0x09, CHR 0x0A, CHR 0x0B, CHR 0x0C, CHR 0x0D, CHR '' '', CHR 0xA0])"

definition trim :: "string \<Rightarrow> string" where
  "trim s = rev (dropWhile isWhiteSpace (rev (dropWhile isWhiteSpace s)))"

text \<open>
  \<^verbatim>\<open>String.prototype.startsWith\<close> and \<^verbatim>\<open>String.prototype.includes\<close>: the search string
  is looked for at every position from the left (\<open>includes_str\<close>, since
  \<open>includes\<close> is a keyword of Isabelle).
\<close>

fun startsWith :: "string \<Rightarrow> string \<Rightarrow> bool" where
  "startsWith s [] = True"
| "startsWith [] (d # t) = False"
| "startsWith (c # s) (d # t) = (c = d \<and> startsWith s t)"

fun includes_str :: "string \<Rightarrow> string \<Rightarrow> bool" where
  "includes_str [] t = (t = [])"
| "includes_str (c # s) t = (startsWith (c # s) t \<or> includes_str s t)"

text \<open>
  \<^verbatim>\<open>
  useEffect(() => {
    if (searchTerm.trim() === '') {
      setFilteredRegistrants(registrants);
    } else {
      const lowercasedSearch = searchTerm.toLowerCase();
      const filtered = registrants.filter(
        (registrant) =>
          registrant.fullName.toLowerCase().includes(lowercasedSearch) ||
          registrant.email.toLowerCase().includes(lowercasedSearch) ||
          registrant.phone.includes(searchTerm)
      );
      setFilteredRegistrants(filtered);
    }
    setCurrentPage(1);
  }, [searchTerm, registrants]);
  \<close>
  The effect runs after every change of \<^verbatim>\<open>searchTerm\<close> or \<^verbatim>\<open>registrants\<close>;
  \<open>filteredRegistrants\<close> is the value it sets.
\<close>

definition filteredRegistrants :: "string \<Rightarrow> Registrant list \<Rightarrow> Registrant list" where
  "filteredRegistrants searchTerm registrants =
     (if trim searchTerm = [] then registrants
      else
        (let lowercasedSearch = toLowerCase searchTerm
         in filter
              (\<lambda>registrant.
                 includes_str (toLowerCase (fullName registrant)) lowercasedSearch \<or>
                 includes_str (toLowerCase (email registrant)) lowercasedSearch \<or>
                 includes_str (phone registrant) searchTerm)
              registrants))"








text \<open>
  \<^verbatim>\<open>Array.prototype.slice(start, end)\<close> on integer arguments: a negative index counts
  from the end, and both are clamped to the array.
\<close>

definition slice :: "'a list \<Rightarrow> int \<Rightarrow> int \<Rightarrow> 'a list" where
  "slice xs start end_ix =
     (let len = int (length xs);
          k = (if start < 0 then max (len + start) 0 else min start len);
          final = (if end_ix < 0 then max (len + end_ix) 0 else min end_ix len)
      in take (nat (final - k)) (drop (nat k) xs))"

text \<open>
  \<^verbatim>\<open>
  const [itemsPerPage] = useState(5);
  const indexOfLastItem = currentPage * itemsPerPage;
  const indexOfFirstItem = indexOfLastItem - itemsPerPage;
  const currentItems = filteredRegistrants.slice(indexOfFirstItem, indexOfLastItem);
  const totalPages = Math.ceil(filteredRegistrants.length / itemsPerPage);
  \<close>
  The page size is a parameter \<open>K\<close> of the model; the component fixes it to 5. The
  quotient is a real number: the floating-point division is exact enough for every array
  length (below \<open>2 ^ 32\<close>) that the ceiling is the same.
\<close>

definition itemsPerPage :: int where
  "itemsPerPage = 5"

definition currentItems :: "int \<Rightarrow> int \<Rightarrow> 'a list \<Rightarrow> 'a list" where
  "currentItems K currentPage filtered =
     (let indexOfLastItem = currentPage * K;
          indexOfFirstItem = indexOfLastItem - K
      in slice filtered indexOfFirstItem indexOfLastItem)"

definition totalPages :: "int \<Rightarrow> 'a list \<Rightarrow> int" where
  "totalPages K filtered = \<lceil>real (length filtered) / real_of_int K\<rceil>"

section \<open>The session guard (contexts/AuthContext.tsx)\<close>

text \<open>
  The React state of \<^verbatim>\<open>AuthProvider\<close>: \<^verbatim>\<open>admin\<close> and \<^verbatim>\<open>isAuthenticated\<close> (named
  \<open>isAuthenticated_state\<close>, the attribute of \<open>Admin\<close> having the name already). A state
  setter takes effect with the next render; the model gives the state after it.
\<close>

record AuthState =
  admin :: "Admin option"
  isAuthenticated_state :: bool

definition initialAuthState :: AuthState where
  "initialAuthState = \<lparr> admin = None, isAuthenticated_state = False \<rparr>"

text \<open>
  \<^verbatim>\<open>
  useEffect(() => {
    const storedAdmin = localStorage.getItem('admin');
    if (storedAdmin) {
      const parsedAdmin = JSON.parse(storedAdmin);
      setAdmin(parsedAdmin);
      setIsAuthenticated(parsedAdmin.isAuthenticated);
    }
  }, []);
  \<close>
  A restart (reload of the page) loses the React state and keeps the local storage: the
  provider starts from its initial state and runs this effect once.
\<close>

definition mountEffect :: "Storage \<Rightarrow> AuthState \<Rightarrow> AuthState" where
  "mountEffect st a =
     (case admin_item st of
        None \<Rightarrow> a
      | Some parsedAdmin \<Rightarrow>
          a\<lparr>admin := Some parsedAdmin, isAuthenticated_state := isAuthenticated parsedAdmin\<rparr>)"

definition restart :: "AuthState \<times> Storage \<Rightarrow> AuthState \<times> Storage" where
  "restart w = (mountEffect (snd w) initialAuthState, snd w)"

text \<open>
  \<^verbatim>\<open>
  const login = async (username: string, password: string): Promise<boolean> => {
    if (username === 'admin' && password === 'admin123') {
      const adminUser = { username, isAuthenticated: true };
      setAdmin(adminUser);
      setIsAuthenticated(true);
      localStorage.setItem('admin', JSON.stringify(adminUser));
      return true;
    }
    return false;
  };
  const logout = () => {
    setAdmin(null);
    setIsAuthenticated(false);
    localStorage.removeItem('admin');
  };
  \<close>
\<close>

definition login :: "string \<Rightarrow> string \<Rightarrow> AuthState \<times> Storage \<Rightarrow> bool \<times> (AuthState \<times> Storage)" where
  "login u p w =
     (if u = ''admin'' \<and> p = ''admin123'' then
        (let adminUser = \<lparr> username = u, isAuthenticated = True \<rparr>
         in (True,
             ((fst w)\<lparr>admin := Some adminUser, isAuthenticated_state := True\<rparr>,
              (snd w)\<lparr>admin_item := Some adminUser\<rparr>)))
      else (False, w))"

definition logout :: "AuthState \<times> Storage \<Rightarrow> AuthState \<times> Storage" where
  "logout w =
     ((fst w)\<lparr>admin := None, isAuthenticated_state := False\<rparr>, (snd w)\<lparr>admin_item := None\<rparr>)"

section \<open>Example data\<close>

definition alice_smith :: Registrant where
  "alice_smith =
     \<lparr> fullName = ''Alice Smith'', email = ''a.smith@example.org'', phone = ''5550100001'',
       address = ''1 Elm Street'', gender = Female, dateOfBirth = ''1990-01-01'',
       photoData = Some ''data:image/jpeg;base64,AAAA'', id_r = ''id-1'',
       photoPath = ''photo_1700000000000.jpg'', createdAt = ''2023-11-14T22:13:20.000Z'' \<rparr>"

definition bob_jones :: Registrant where
  "bob_jones =
     \<lparr> fullName = ''Bob Jones'', email = ''bob@example.org'', phone = ''5550100002'',
       address = ''2 Oak Street'', gender = Male, dateOfBirth = ''1985-05-05'',
       photoData = None, id_r = ''id-2'',
       photoPath = [], createdAt = ''2023-11-14T22:13:21.000Z'' \<rparr>"

definition alice_brown :: Registrant where
  "alice_brown =
     \<lparr> fullName = ''Alice Brown'', email = ''brown@example.org'', phone = ''5550100003'',
       address = ''3 Ash Street'', gender = Other, dateOfBirth = ''1979-09-09'',
       photoData = Some ''data:image/jpeg;base64,BBBB'', id_r = ''id-3'',
       photoPath = ''photo_1700000000002.jpg'', createdAt = ''2023-11-14T22:13:22.000Z'' \<rparr>"

definition three_stored :: Storage where
  "three_stored =
     \<lparr> registrants_item = Some [alice_smith, bob_jones, alice_brown], admin_item = None \<rparr>"

text \<open>A collection in which two records carry the same id.\<close>

definition twin :: Registrant where
  "twin = bob_jones\<lparr>id_r := ''id-1''\<rparr>"

definition twins_stored :: Storage where
  "twins_stored = \<lparr> registrants_item = Some [bob_jones, alice_smith, twin], admin_item = None \<rparr>"

definition nothing_stored :: Storage where
  "nothing_stored = \<lparr> registrants_item = None, admin_item = None \<rparr>"

definition fields_without_photo :: RegistrantFormData where
  "fields_without_photo =
     \<lparr> fullName = ''Carol White'', email = ''carol@example.org'', phone = ''5550100004'',
       address = ''4 Fir Street'', gender = Female, dateOfBirth = ''2000-02-02'',
       photoData = None \<rparr>"

definition fields_with_photo :: RegistrantFormData where
  "fields_with_photo = fields_without_photo\<lparr>photoData := Some ''data:image/jpeg;base64,CCCC''\<rparr>"

definition fields_with_empty_photo :: RegistrantFormData where
  "fields_with_empty_photo = fields_without_photo\<lparr>photoData := Some []\<rparr>"

definition env_a :: Env where
  "env_a = \<lparr> randomUUID = ''id-4'', now = 1700000000003, toISOString = ''2023-11-14T22:13:23.000Z'' \<rparr>"

definition env_b :: Env where
  "env_b = \<lparr> randomUUID = ''id-5'', now = 1700000000004, toISOString = ''2023-11-14T22:13:24.000Z'' \<rparr>"

definition env_c :: Env where
  "env_c = \<lparr> randomUUID = ''id-6'', now = 1700000000005, toISOString = ''2023-11-14T22:13:25.000Z'' \<rparr>"

text \<open>
  A run of the service on an empty browser storage; the collection holds up to three
  records along the way.
\<close>

definition run_example :: "operation list" where
  "run_example =
     [Create env_a fields_with_photo, Create env_b fields_without_photo,
      Update env_c ''id-4'' fields_without_photo, Create env_c fields_with_photo,
      Delete ''id-5'', GetAll, GetById ''id-6'']"

text \<open>A run in which the platform hands out the same identifier twice.\<close>

definition repeated_uuid_run :: "operation list" where
  "repeated_uuid_run = [Create env_a fields_with_photo, Create env_a fields_without_photo]"


section \<open>Basic facts\<close>

lemma getAllRegistrants_eq:
  "getAllRegistrants s = (collection s, s\<lparr>registrants_item := Some (collection s)\<rparr>)"
  by (cases "registrants_item s")
     (simp_all add: getAllRegistrants_def initializeStorage_def collection_def Let_def)

lemma collection_update [simp]: "collection (s\<lparr>registrants_item := Some rs\<rparr>) = rs"
  by (simp add: collection_def)

lemma findIndex_None_iff: "findIndex P xs = None \<longleftrightarrow> (\<forall>x \<in> set xs. \<not> P x)"
  by (induction xs) auto

lemma findIndex_Some:
  "findIndex P xs = Some k \<Longrightarrow> k < length xs \<and> P (xs ! k) \<and> (\<forall>j < k. \<not> P (xs ! j))"
proof (induction xs arbitrary: k)
  case Nil
  then show ?case by simp
next
  case (Cons x xs)
  show ?case
  proof (cases "P x")
    case True
    with Cons.prems show ?thesis by simp
  next
    case False
    with Cons.prems obtain k' where k': "findIndex P xs = Some k'" "k = Suc k'"
      by auto
    from Cons.IH [OF k'(1)] False k'(2) show ?thesis
      by (auto simp: less_Suc_eq_0_disj)
  qed
qed

lemma findIndex_find:
  "findIndex P xs = Some k \<Longrightarrow> find P xs = Some (xs ! k)"
  by (induction xs arbitrary: k) (auto split: if_splits)

lemma find_findIndex:
  "find P xs = Some x \<Longrightarrow> \<exists>k. findIndex P xs = Some k \<and> xs ! k = x"
  by (induction xs) (auto split: if_splits)

lemma length_filter_eq_iff: "length (filter P xs) = length xs \<longleftrightarrow> (\<forall>x \<in> set xs. P x)"
proof -
  have "length (filter P xs) + length (filter (\<lambda>x. \<not> P x) xs) = length xs"
    by (rule sum_length_filter_compl)
  then have "length (filter P xs) = length xs \<longleftrightarrow> filter (\<lambda>x. \<not> P x) xs = []"
    by auto
  then show ?thesis
    by (simp add: filter_empty_conv)
qed

lemma find_list_update:
  "findIndex P xs = Some k \<Longrightarrow> P y \<Longrightarrow> find P (xs[k := y]) = Some y"
  by (induction xs arbitrary: k) (auto split: if_splits)


lemma find_Some_holds: "find P xs = Some x \<Longrightarrow> P x"
  by (induction xs) (auto split: if_splits)

lemma photo_label_nonempty: "photo_label t \<noteq> []"
  by (simp add: photo_label_def)

lemma storage_present:
  "registrants_item s \<noteq> None \<Longrightarrow> s\<lparr>registrants_item := Some (collection s)\<rparr> = s"
  by (auto simp: collection_def)

lemma storage_initialized:
  "s\<lparr>registrants_item := Some (collection s)\<rparr> = initializeStorage s"
  by (auto simp: collection_def initializeStorage_def)

lemma getRegistrantById_eq:
  "getRegistrantById i s =
     (find (\<lambda>r. id_r r = i) (collection s), s\<lparr>registrants_item := Some (collection s)\<rparr>)"
  by (simp add: getRegistrantById_def getAllRegistrants_eq)

lemma addRegistrant_eq:
  "addRegistrant env data s =
     (let r = \<lparr> fullName = fullName data, email = email data, phone = phone data,
                address = address data, gender = gender data, dateOfBirth = dateOfBirth data,
                photoData = photoData data, id_r = randomUUID env,
                photoPath = (if truthy (photoData data) then photo_label (now env) else []),
                createdAt = toISOString env \<rparr>
      in (r, s\<lparr>registrants_item := Some (collection s @ [r])\<rparr>))"
  by (simp add: addRegistrant_def getAllRegistrants_eq Let_def)

lemma updateRegistrant_eq:
  "updateRegistrant env i data s =
     (case findIndex (\<lambda>r. id_r r = i) (collection s) of
        None \<Rightarrow> (None, s\<lparr>registrants_item := Some (collection s)\<rparr>)
      | Some k \<Rightarrow>
          (Some (updatedRegistrant env data (collection s ! k)),
           s\<lparr>registrants_item :=
               Some ((collection s)[k := updatedRegistrant env data (collection s ! k)])\<rparr>))"
  by (simp add: updateRegistrant_def getAllRegistrants_eq Let_def split: option.splits)

lemma deleteRegistrant_eq:
  "deleteRegistrant i s =
     (if \<forall>r \<in> set (collection s). id_r r \<noteq> i
      then (False, s\<lparr>registrants_item := Some (collection s)\<rparr>)
      else (True, s\<lparr>registrants_item := Some (filter (\<lambda>r. id_r r \<noteq> i) (collection s))\<rparr>))"
  by (simp add: deleteRegistrant_def getAllRegistrants_eq Let_def length_filter_eq_iff)

text \<open>
  When the ids of the collection are unique, every stored registrant is the one that
  \<open>getRegistrantById\<close> returns for its id.
\<close>

lemma find_distinct_member:
  "distinct (map f xs) \<Longrightarrow> x \<in> set xs \<Longrightarrow> find (\<lambda>y. f y = f x) xs = Some x"
  by (induction xs) (auto simp: image_iff)

lemma getRegistrantById_member:
  assumes "distinct (map id_r (collection s))" and "r \<in> set (collection s)"
  shows "fst (getRegistrantById (id_r r) s) = Some r"
  using assms by (simp add: getRegistrantById_eq find_distinct_member)

text \<open>
  The photo and its path change together: an update carries either the stored pair or the
  supplied photo with a newly computed label. It never changes \<open>id\<close> or \<open>createdAt\<close>.
\<close>

lemma updatedRegistrant_photo_pair:
  "(photoData (updatedRegistrant env data old), photoPath (updatedRegistrant env data old))
     = (if truthy (photoData data) then (photoData data, photo_label (now env))
        else (photoData old, photoPath old))"
  by (simp add: updatedRegistrant_def)

lemma updatedRegistrant_keeps:
  "id_r (updatedRegistrant env data old) = id_r old
   \<and> createdAt (updatedRegistrant env data old) = createdAt old"
  by (simp add: updatedRegistrant_def)

section \<open>Update of an unknown id\<close>

text \<open>
  Claim C2. For every id that no record of the collection carries and every fields value,
  \<open>updateRegistrant\<close> returns \<^verbatim>\<open>null\<close> (\<open>None\<close>) and the persisted collection is the
  same sequence of records as before: no record is added, removed or modified. The
  session item is not touched either, and when the key \<^verbatim>\<open>'registrants'\<close> is present the
  storage is left exactly as it was (when it is absent, reading the collection creates it
  with the empty sequence, which is the collection an absent key stands for).
\<close>

theorem update_unknown_id:
  assumes "\<forall>r \<in> set (collection s). id_r r \<noteq> i"
  shows "fst (updateRegistrant env i data s) = None
       \<and> collection (snd (updateRegistrant env i data s)) = collection s
       \<and> admin_item (snd (updateRegistrant env i data s)) = admin_item s
       \<and> (registrants_item s \<noteq> None \<longrightarrow> snd (updateRegistrant env i data s) = s)"
proof -
  from assms have "findIndex (\<lambda>r. id_r r = i) (collection s) = None"
    by (simp add: findIndex_None_iff)
  then have "updateRegistrant env i data s = (None, s\<lparr>registrants_item := Some (collection s)\<rparr>)"
    by (simp add: updateRegistrant_eq)
  then show ?thesis
    by (simp add: storage_present)
qed

theorem update_unknown_id_witness:
  "fst (updateRegistrant env_a ''id-9'' fields_with_photo three_stored) = None
   \<and> snd (updateRegistrant env_a ''id-9'' fields_with_photo three_stored) = three_stored
   \<and> collection three_stored = [alice_smith, bob_jones, alice_brown]"
  using update_unknown_id [of three_stored "''id-9''" env_a fields_with_photo]
  by (simp add: three_stored_def collection_def alice_smith_def bob_jones_def alice_brown_def)

section \<open>Deletion\<close>

text \<open>
  Claim C3, as the specification words it, says that deleting an unknown id writes nothing.
  On a storage whose key \<^verbatim>\<open>'registrants'\<close> is absent this is not so: \<open>deleteRegistrant\<close>
  reads the collection through \<open>getAllRegistrants\<close>, whose \<open>initializeStorage\<close> creates
  the key with the empty array. The call returns \<^verbatim>\<open>false\<close> and the storage has changed.
\<close>

theorem delete_absent_writes_counterexample:
  "fst (deleteRegistrant ''id-9'' nothing_stored) = False
   \<and> registrants_item nothing_stored = None
   \<and> registrants_item (snd (deleteRegistrant ''id-9'' nothing_stored)) = Some []
   \<and> snd (deleteRegistrant ''id-9'' nothing_stored) \<noteq> nothing_stored"
  by (simp add: deleteRegistrant_def getAllRegistrants_def initializeStorage_def
      nothing_stored_def Let_def)

text \<open>
  Claim C3, amended. \<open>deleteRegistrant\<close> returns \<^verbatim>\<open>true\<close> if and only if a record with
  the id was present, and afterwards no record of the collection carries the id. For
  every id not in the collection it returns \<^verbatim>\<open>false\<close>, the collection has the same size
  and contents, and the only write that can have happened is the lazy creation of an
  absent key \<^verbatim>\<open>'registrants'\<close> with the empty collection: the storage left is
  \<open>initializeStorage s\<close>, which is \<open>s\<close> itself when the key is present.
\<close>

theorem delete_result:
  "fst (deleteRegistrant i s) = (\<exists>r \<in> set (collection s). id_r r = i)
   \<and> (\<forall>r \<in> set (collection (snd (deleteRegistrant i s))). id_r r \<noteq> i)
   \<and> ((\<forall>r \<in> set (collection s). id_r r \<noteq> i) \<longrightarrow>
        fst (deleteRegistrant i s) = False
        \<and> collection (snd (deleteRegistrant i s)) = collection s
        \<and> snd (deleteRegistrant i s) = initializeStorage s
        \<and> (registrants_item s \<noteq> None \<longrightarrow> snd (deleteRegistrant i s) = s))"
  by (auto simp: deleteRegistrant_eq storage_present storage_initialized [symmetric])

theorem delete_result_witness:
  "fst (deleteRegistrant ''id-9'' three_stored) = False
   \<and> snd (deleteRegistrant ''id-9'' three_stored) = three_stored
   \<and> fst (deleteRegistrant ''id-2'' three_stored) = True
   \<and> collection (snd (deleteRegistrant ''id-2'' three_stored)) = [alice_smith, alice_brown]"
  using delete_result [of "''id-9''" three_stored] delete_result [of "''id-2''" three_stored]
  by (simp add: three_stored_def collection_def alice_smith_def bob_jones_def alice_brown_def
      deleteRegistrant_eq)

section \<open>Positions and order\<close>

text \<open>
  Claim C10. \<open>deleteRegistrant\<close> leaves exactly the records whose id differs from the given
  one, every match being removed and not only the first, and the records left keep their
  relative order (the result is a subsequence of the collection). \<open>updateRegistrant\<close>
  keeps the length of the collection; when \<open>findIndex\<close> finds the position \<open>k\<close>, the
  collection is changed at \<open>k\<close> only, every other position holding the record it held;
  when it finds none, the collection is unchanged.
\<close>

theorem delete_update_positions:
  "collection (snd (deleteRegistrant i s)) = filter (\<lambda>r. id_r r \<noteq> i) (collection s)
   \<and> subseq (collection (snd (deleteRegistrant i s))) (collection s)
   \<and> length (collection (snd (updateRegistrant env j data s))) = length (collection s)
   \<and> (\<forall>k. findIndex (\<lambda>r. id_r r = j) (collection s) = Some k \<longrightarrow>
          collection (snd (updateRegistrant env j data s))
            = (collection s)[k := updatedRegistrant env data (collection s ! k)]
          \<and> (\<forall>m < length (collection s). m \<noteq> k \<longrightarrow>
                collection (snd (updateRegistrant env j data s)) ! m = collection s ! m))
   \<and> (findIndex (\<lambda>r. id_r r = j) (collection s) = None \<longrightarrow>
          collection (snd (updateRegistrant env j data s)) = collection s)"
proof -
  have d: "collection (snd (deleteRegistrant i s)) = filter (\<lambda>r. id_r r \<noteq> i) (collection s)"
    by (simp add: deleteRegistrant_eq filter_id_conv)
  have u: "length (collection (snd (updateRegistrant env j data s))) = length (collection s)"
    by (simp add: updateRegistrant_eq split: option.splits)
  show ?thesis
    using d u by (simp add: updateRegistrant_eq)
qed

theorem delete_update_positions_witness:
  "collection (snd (deleteRegistrant ''id-1'' twins_stored)) = [bob_jones]
   \<and> collection (snd (updateRegistrant env_a ''id-1'' fields_without_photo twins_stored))
       = [bob_jones, updatedRegistrant env_a fields_without_photo alice_smith, twin]"
  using delete_update_positions [of "''id-1''" twins_stored env_a "''id-1''" fields_without_photo]
  by (simp add: twins_stored_def twin_def collection_def alice_smith_def bob_jones_def)

section \<open>Update without a new photo\<close>

text \<open>
  Claim C1. Let \<open>r\<close> be the stored registrant that \<open>getRegistrantById\<close> returns for an id
  (with unique ids, any stored registrant and its id: \<open>getRegistrantById_member\<close>), and
  let the supplied photo be absent or the empty string. Then \<open>updateRegistrant\<close>
  returns a record \<open>r'\<close> that is also the one persisted under the id; \<open>photoData\<close> and
  \<open>photoPath\<close> of \<open>r'\<close> are those of \<open>r\<close> (both old, never one without the other), and
  \<open>r'\<close> is \<open>r\<close> with \<open>fullName\<close>, \<open>email\<close>, \<open>phone\<close>, \<open>address\<close>, \<open>gender\<close> and
  \<open>dateOfBirth\<close> replaced by the supplied fields (so \<open>id\<close> and \<open>createdAt\<close> stay too).
\<close>

theorem update_keeps_photo:
  assumes "fst (getRegistrantById i s) = Some r"
    and "\<not> truthy (photoData data)"
  shows "\<exists>r'. fst (updateRegistrant env i data s) = Some r'
           \<and> fst (getRegistrantById i (snd (updateRegistrant env i data s))) = Some r'
           \<and> photoData r' = photoData r \<and> photoPath r' = photoPath r
           \<and> r' = r\<lparr>fullName := fullName data, email := email data, phone := phone data,
                    address := address data, gender := gender data,
                    dateOfBirth := dateOfBirth data\<rparr>"
proof -
  let ?P = "\<lambda>x. id_r x = i"
  from assms(1) have f: "find ?P (collection s) = Some r"
    by (simp add: getRegistrantById_eq)
  then obtain k where k: "findIndex ?P (collection s) = Some k" "collection s ! k = r"
    using find_findIndex by fastforce
  from f have idr: "id_r r = i"
    by (rule find_Some_holds)
  let ?r' = "updatedRegistrant env data r"
  have eq: "?r' = r\<lparr>fullName := fullName data, email := email data, phone := phone data,
                    address := address data, gender := gender data,
                    dateOfBirth := dateOfBirth data\<rparr>"
    using assms(2) by (simp add: updatedRegistrant_def)
  have ret: "fst (updateRegistrant env i data s) = Some ?r'"
    using k by (simp add: updateRegistrant_eq)
  have "id_r ?r' = i"
    using idr by (simp add: updatedRegistrant_def)
  then have "find ?P ((collection s)[k := ?r']) = Some ?r'"
    using k(1) by (simp add: find_list_update)
  then have per: "fst (getRegistrantById i (snd (updateRegistrant env i data s))) = Some ?r'"
    using k by (simp add: updateRegistrant_eq getRegistrantById_eq)
  have "photoData ?r' = photoData r \<and> photoPath ?r' = photoPath r"
    using assms(2) by (simp add: updatedRegistrant_def)
  with ret per eq show ?thesis
    by blast
qed

theorem update_keeps_photo_witness:
  "map_option photoData (fst (updateRegistrant env_a ''id-1'' fields_with_empty_photo three_stored))
     = Some (Some ''data:image/jpeg;base64,AAAA'')
   \<and> map_option photoPath (fst (updateRegistrant env_a ''id-1'' fields_with_empty_photo three_stored))
     = Some ''photo_1700000000000.jpg''
   \<and> map_option fullName (fst (updateRegistrant env_a ''id-1'' fields_with_empty_photo three_stored))
     = Some ''Carol White''"
  using update_keeps_photo [of "''id-1''" three_stored alice_smith fields_with_empty_photo env_a]
  by (auto simp: getRegistrantById_eq three_stored_def collection_def alice_smith_def
      fields_with_empty_photo_def fields_without_photo_def)

section \<open>Creation\<close>



text \<open>
  The label of a photo is computed from the time: the digits between \<^verbatim>\<open>photo_\<close> and
  \<^verbatim>\<open>.jpg\<close> read back as the value of \<^verbatim>\<open>Date.now()\<close>.
\<close>

lemma digit_cases:
  "d < 10 \<Longrightarrow> d = 0 \<or> d = 1 \<or> d = 2 \<or> d = 3 \<or> d = 4 \<or> d = 5 \<or> d = 6 \<or> d = 7 \<or> d = 8 \<or> d = (9::nat)"
  by arith

lemma digit_of_char_digit_char: "d < 10 \<Longrightarrow> digit_of_char (digit_char d) = Some d"
  using digit_cases [of d] by (auto simp: digit_of_char_def digit_char_def)

lemma digit_char_zero_iff: "d < 10 \<Longrightarrow> digit_char d = CHR ''0'' \<longleftrightarrow> d = 0"
  using digit_cases [of d] by (auto simp: digit_char_def)

lemma digit_char_not_minus: "d < 10 \<Longrightarrow> digit_char d \<noteq> CHR ''-''"
  using digit_cases [of d] by (auto simp: digit_char_def)

lemma digits_value_append:
  "digits_value acc (xs @ ys)
     = (case digits_value acc xs of None \<Rightarrow> None | Some v \<Rightarrow> digits_value v ys)"
  by (induction xs arbitrary: acc) (simp_all split: option.splits)

lemma string_of_nat_nonempty: "string_of_nat n \<noteq> []"
  by (subst string_of_nat.simps) simp

lemma digits_value_string_of_nat: "digits_value 0 (string_of_nat n) = Some n"
proof (induction n rule: string_of_nat.induct)
  case (1 n)
  show ?case
  proof (cases "n < 10")
    case True
    then show ?thesis
      by (subst string_of_nat.simps) (simp add: digit_of_char_digit_char)
  next
    case False
    with "1" have "digits_value 0 (string_of_nat (n div 10)) = Some (n div 10)"
      by simp
    with False show ?thesis
      by (subst string_of_nat.simps)
         (simp add: digits_value_append digit_of_char_digit_char)
  qed
qed

lemma hd_string_of_nat: "hd (string_of_nat n) = CHR ''0'' \<longleftrightarrow> n = 0"
proof (induction n rule: string_of_nat.induct)
  case (1 n)
  show ?case
  proof (cases "n < 10")
    case True
    then show ?thesis
      by (subst string_of_nat.simps) (simp add: digit_char_zero_iff)
  next
    case False
    with "1" have "hd (string_of_nat (n div 10)) = CHR ''0'' \<longleftrightarrow> n div 10 = 0"
      by simp
    moreover from False have "n div 10 \<noteq> 0" "n \<noteq> 0"
      by simp_all
    ultimately show ?thesis
      using False by (subst string_of_nat.simps) (simp add: string_of_nat_nonempty)
  qed
qed

lemma hd_string_of_nat_not_minus: "hd (string_of_nat n) \<noteq> CHR ''-''"
proof (induction n rule: string_of_nat.induct)
  case (1 n)
  show ?case
  proof (cases "n < 10")
    case True
    then show ?thesis
      by (subst string_of_nat.simps) (simp add: digit_char_not_minus)
  next
    case False
    with "1" show ?thesis
      by (subst string_of_nat.simps) (simp add: string_of_nat_nonempty)
  qed
qed

lemma string_of_nat_zero: "string_of_nat 0 = ''0''"
  by (simp add: string_of_nat.simps digit_char_def)

lemma nat_of_decimal_string_of_nat: "nat_of_decimal (string_of_nat n) = Some n"
proof (cases "string_of_nat n")
  case Nil
  then show ?thesis by (simp add: string_of_nat_nonempty)
next
  case (Cons c cs)
  show ?thesis
  proof (cases "c = CHR ''0''")
    case True
    with Cons have "n = 0"
      using hd_string_of_nat [of n] by simp
    then show ?thesis
      by (simp add: nat_of_decimal_def string_of_nat_zero digit_of_char_def)
  next
    case False
    with Cons show ?thesis
      using digits_value_string_of_nat [of n] by (simp add: nat_of_decimal_def)
  qed
qed

lemma int_of_decimal_string_of_int: "int_of_decimal (string_of_int t) = Some t"
proof (cases "t < 0")
  case True
  then have "nat_of_decimal (string_of_nat (nat (- t))) = Some (nat (- t))" "nat (- t) \<noteq> 0"
    by (simp_all add: nat_of_decimal_string_of_nat)
  with True show ?thesis
    by (simp add: int_of_decimal_def string_of_int_def)
next
  case False
  obtain c cs where cs: "string_of_nat (nat t) = c # cs"
    using string_of_nat_nonempty [of "nat t"] by (cases "string_of_nat (nat t)") auto
  then have "c \<noteq> CHR ''-''"
    using hd_string_of_nat_not_minus [of "nat t"] by simp
  with False cs show ?thesis
    using nat_of_decimal_string_of_nat [of "nat t"]
    by (simp add: int_of_decimal_def string_of_int_def)
qed

text \<open>
  Claim C5, as the specification words it, says that a registrant created without a photo
  has no \<open>photoData\<close>. The code tests the photo for truthiness, so the empty string is
  "no photo" as well (the forms hold it in this way), and \<open>addRegistrant\<close> copies
  \<^verbatim>\<open>data.photoData\<close> as it is: the record then carries the empty string, which is
  present and not absent.
\<close>

theorem create_empty_photo_counterexample:
  "\<not> truthy (photoData fields_with_empty_photo)
   \<and> photoPath (fst (addRegistrant env_a fields_with_empty_photo three_stored)) = []
   \<and> photoData (fst (addRegistrant env_a fields_with_empty_photo three_stored)) = Some []
   \<and> photoData (fst (addRegistrant env_a fields_with_empty_photo three_stored)) \<noteq> None"
  by (simp add: addRegistrant_eq Let_def fields_with_empty_photo_def fields_without_photo_def)

text \<open>
  Claim C5, amended. For every fields value the record made by \<open>addRegistrant\<close> carries
  the supplied \<open>photoData\<close> unchanged: absent when it is absent, the empty string when it
  is the empty string. In both of these cases, where no photo is supplied, \<open>photoPath\<close>
  is the empty string. When a photo is supplied (a non-empty string), \<open>photoPath\<close> is
  not empty: it is \<^verbatim>\<open>photo_\<close>, the decimal numeral of \<^verbatim>\<open>Date.now()\<close>, and \<^verbatim>\<open>.jpg\<close>.
\<close>

theorem create_photo_path:
  "photoData (fst (addRegistrant env data s)) = photoData data
   \<and> (photoData data = None \<longrightarrow>
        photoPath (fst (addRegistrant env data s)) = []
        \<and> photoData (fst (addRegistrant env data s)) = None)
   \<and> (photoData data = Some [] \<longrightarrow>
        photoPath (fst (addRegistrant env data s)) = []
        \<and> photoData (fst (addRegistrant env data s)) = Some [])
   \<and> (\<forall>p. photoData data = Some p \<and> p \<noteq> [] \<longrightarrow>
        photoData (fst (addRegistrant env data s)) = Some p
        \<and> photoPath (fst (addRegistrant env data s)) \<noteq> []
        \<and> (\<exists>ds. photoPath (fst (addRegistrant env data s)) = ''photo_'' @ ds @ ''.jpg''
                \<and> int_of_decimal ds = Some (now env)))"
proof -
  have label: "\<exists>ds. photo_label (now env) = ''photo_'' @ ds @ ''.jpg''
                  \<and> int_of_decimal ds = Some (now env)"
    unfolding photo_label_def using int_of_decimal_string_of_int [of "now env"] by blast
  have path: "photoPath (fst (addRegistrant env data s))
                = (if truthy (photoData data) then photo_label (now env) else [])"
    and photo: "photoData (fst (addRegistrant env data s)) = photoData data"
    by (simp_all add: addRegistrant_eq Let_def)
  from label path photo show ?thesis
    by (auto simp: photo_label_nonempty)
qed

theorem create_photo_path_witness:
  "photoPath (fst (addRegistrant env_a fields_without_photo three_stored)) = []
   \<and> photoData (fst (addRegistrant env_a fields_without_photo three_stored)) = None
   \<and> photoPath (fst (addRegistrant env_a fields_with_empty_photo three_stored)) = []
   \<and> photoData (fst (addRegistrant env_a fields_with_empty_photo three_stored)) = Some []
   \<and> photoPath (fst (addRegistrant env_a fields_with_photo three_stored)) = ''photo_1700000000003.jpg''
   \<and> photoPath (fst (addRegistrant env_b fields_with_photo three_stored)) = ''photo_1700000000004.jpg''
   \<and> int_of_decimal ''1700000000003'' = Some (now env_a)
   \<and> int_of_decimal ''1700000000004'' = Some (now env_b)"
proof -
  have a: "photoData fields_without_photo = None"
    and b: "photoData fields_with_empty_photo = Some []"
    and c: "photoData fields_with_photo = Some ''data:image/jpeg;base64,CCCC''"
    by (simp_all add: fields_without_photo_def fields_with_empty_photo_def fields_with_photo_def)
  have pa: "photoPath (fst (addRegistrant env_a fields_with_photo three_stored)) = ''photo_1700000000003.jpg''"
    and pb: "photoPath (fst (addRegistrant env_b fields_with_photo three_stored)) = ''photo_1700000000004.jpg''"
    by (simp_all add: addRegistrant_eq Let_def c photo_label_def string_of_int_def
        string_of_nat.simps digit_char_def env_a_def env_b_def)
  have da: "int_of_decimal ''1700000000003'' = Some (now env_a)"
    and db: "int_of_decimal ''1700000000004'' = Some (now env_b)"
    by (simp_all add: int_of_decimal_def nat_of_decimal_def digit_of_char_def env_a_def env_b_def)
  from create_photo_path [of env_a fields_without_photo three_stored] a
    create_photo_path [of env_a fields_with_empty_photo three_stored] b
    pa pb da db
  show ?thesis
    by simp
qed

section \<open>Uniqueness of ids\<close>

lemma issued_append: "issued (xs @ ys) = issued xs @ issued ys"
  by (induction xs rule: issued.induct) simp_all

lemma created_ids: "map id_r (created ops s) = issued ops"
proof (induction ops arbitrary: s)
  case Nil
  show ?case by simp
next
  case (Cons x xs)
  then show ?case
    by (cases x) (simp_all add: addRegistrant_eq Let_def)
qed

lemma perform_ids:
  "id_r ` set (collection (perform x s)) \<subseteq> id_r ` set (collection s) \<union> set (issued [x])"
proof (cases x)
  case (Create env data)
  then show ?thesis by (auto simp: addRegistrant_eq Let_def)
next
  case (Update env i data)
  show ?thesis
  proof (cases "findIndex (\<lambda>r. id_r r = i) (collection s)")
    case None
    with Update show ?thesis by (simp add: updateRegistrant_eq)
  next
    case (Some k)
    then have "k < length (collection s)"
      by (simp add: findIndex_Some)
    then have "map id_r ((collection s)[k := updatedRegistrant env data (collection s ! k)])
                 = map id_r (collection s)"
      by (simp add: map_update updatedRegistrant_def list_update_same_conv)
    then have "id_r ` set ((collection s)[k := updatedRegistrant env data (collection s ! k)])
                 = id_r ` set (collection s)"
      by (metis set_map)
    with Update Some show ?thesis by (simp add: updateRegistrant_eq)
  qed
next
  case (Delete i)
  then show ?thesis by (auto simp: deleteRegistrant_eq)
next
  case GetAll
  then show ?thesis by (simp add: getAllRegistrants_eq)
next
  case (GetById i)
  then show ?thesis by (simp add: getRegistrantById_eq)
qed

lemma perform_distinct:
  assumes "distinct (map id_r (collection s))"
    and "set (issued [x]) \<inter> id_r ` set (collection s) = {}"
  shows "distinct (map id_r (collection (perform x s)))"
proof (cases x)
  case (Create env data)
  with assms show ?thesis by (auto simp: addRegistrant_eq Let_def)
next
  case (Update env i data)
  show ?thesis
  proof (cases "findIndex (\<lambda>r. id_r r = i) (collection s)")
    case None
    with Update assms show ?thesis by (simp add: updateRegistrant_eq)
  next
    case (Some k)
    then have "k < length (collection s)"
      by (simp add: findIndex_Some)
    then have "map id_r ((collection s)[k := updatedRegistrant env data (collection s ! k)])
                 = map id_r (collection s)"
      by (simp add: map_update updatedRegistrant_def list_update_same_conv)
    with Update Some assms show ?thesis by (simp add: updateRegistrant_eq)
  qed
next
  case (Delete i)
  with assms show ?thesis by (auto simp: deleteRegistrant_eq distinct_map_filter)
next
  case GetAll
  with assms show ?thesis by (simp add: getAllRegistrants_eq)
next
  case (GetById i)
  with assms show ?thesis by (simp add: getRegistrantById_eq)
qed

lemma run_distinct:
  assumes "distinct (map id_r (collection s))"
    and "distinct (issued ops)"
    and "set (issued ops) \<inter> id_r ` set (collection s) = {}"
  shows "distinct (map id_r (collection (run ops s)))"
  using assms
proof (induction ops arbitrary: s)
  case Nil
  then show ?case by simp
next
  case (Cons x xs)
  have split: "issued (x # xs) = issued [x] @ issued xs"
    using issued_append [of "[x]" xs] by simp
  from Cons.prems(3) split have here: "set (issued [x]) \<inter> id_r ` set (collection s) = {}"
    by auto
  have d: "distinct (map id_r (collection (perform x s)))"
    using Cons.prems(1) here by (rule perform_distinct)
  from Cons.prems(2) split have later: "distinct (issued xs)" "set (issued xs) \<inter> set (issued [x]) = {}"
    by auto
  from Cons.prems(3) split have "set (issued xs) \<inter> id_r ` set (collection s) = {}"
    by auto
  with later(2) perform_ids [of x s]
  have "set (issued xs) \<inter> id_r ` set (collection (perform x s)) = {}"
    by blast
  with d later(1) have "distinct (map id_r (collection (run xs (perform x s))))"
    by (rule Cons.IH)
  then show ?case by simp
qed

lemma run_ids:
  "id_r ` set (collection (run ops s)) \<subseteq> id_r ` set (collection s) \<union> set (issued ops)"
proof (induction ops arbitrary: s)
  case Nil
  show ?case by simp
next
  case (Cons x xs)
  have "issued (x # xs) = issued [x] @ issued xs"
    using issued_append [of "[x]" xs] by simp
  with Cons [of "perform x s"] perform_ids [of x s] show ?case
    by auto
qed

text \<open>
  Claim C9, as the specification words it, holds of every sequence of creations. The id of
  a record is the value of \<^verbatim>\<open>crypto.randomUUID()\<close> and \<open>addRegistrant\<close> does not look
  whether a stored record carries it already. If the platform hands out one value twice,
  two creations return the same id and the collection holds it twice.
\<close>

theorem repeated_uuid_counterexample:
  "issued repeated_uuid_run = [''id-4'', ''id-4'']
   \<and> map id_r (created repeated_uuid_run nothing_stored) = [''id-4'', ''id-4'']
   \<and> \<not> distinct (map id_r (created repeated_uuid_run nothing_stored))
   \<and> map id_r (collection (run repeated_uuid_run nothing_stored)) = [''id-4'', ''id-4'']
   \<and> \<not> distinct (map id_r (collection (run repeated_uuid_run nothing_stored)))"
  by (simp add: repeated_uuid_run_def addRegistrant_eq Let_def env_a_def nothing_stored_def
      collection_def)

text \<open>
  Claim C9, amended. The ids of the records returned by the creations of a run are exactly
  the values \<^verbatim>\<open>crypto.randomUUID()\<close> returned, in order, and every stored id is an id
  stored at the start or one of these values; the service adds no check of its own. So
  whenever the values handed out are pairwise distinct and differ from the ids stored at
  the start, and the ids stored at the start are unique, then for every sequence of
  creations interleaved with any other store operations (update, delete, listing,
  lookup) the ids of all records returned by the creations are pairwise distinct, and
  after every prefix of the run the ids of the persisted collection are unique.
\<close>

theorem ids_unique:
  "map id_r (created ops s) = issued ops
   \<and> id_r ` set (collection (run ops s)) \<subseteq> id_r ` set (collection s) \<union> set (issued ops)
   \<and> (distinct (map id_r (collection s)) \<and> distinct (issued ops)
        \<and> set (issued ops) \<inter> id_r ` set (collection s) = {} \<longrightarrow>
          distinct (map id_r (created ops s))
          \<and> (\<forall>k \<le> length ops. distinct (map id_r (collection (run (take k ops) s)))))"
proof -
  have prefixes: "distinct (map id_r (collection (run (take k ops) s)))"
    if h: "distinct (map id_r (collection s))" "distinct (issued ops)"
      "set (issued ops) \<inter> id_r ` set (collection s) = {}" for k
  proof -
    have "issued ops = issued (take k ops) @ issued (drop k ops)"
      using issued_append [of "take k ops" "drop k ops"] by simp
    with h(2,3) have "distinct (issued (take k ops))"
      and "set (issued (take k ops)) \<inter> id_r ` set (collection s) = {}"
      by auto
    with h(1) show ?thesis
      by (rule run_distinct)
  qed
  have "map id_r (created ops s) = issued ops"
    by (rule created_ids)
  with prefixes run_ids [of ops s] show ?thesis
    by simp
qed

theorem ids_unique_witness:
  "map id_r (created run_example nothing_stored) = [''id-4'', ''id-5'', ''id-6'']
   \<and> distinct (map id_r (created run_example nothing_stored))
   \<and> map id_r (collection (run (take 4 run_example) nothing_stored)) = [''id-4'', ''id-5'', ''id-6'']
   \<and> distinct (map id_r (collection (run (take 4 run_example) nothing_stored)))
   \<and> map id_r (collection (run run_example nothing_stored)) = [''id-4'', ''id-6'']"
proof -
  have h1: "distinct (map id_r (collection nothing_stored))"
    by (simp add: nothing_stored_def collection_def)
  have h2: "distinct (issued run_example)"
    by (simp add: run_example_def env_a_def env_b_def env_c_def)
  have h3: "set (issued run_example) \<inter> id_r ` set (collection nothing_stored) = {}"
    by (simp add: nothing_stored_def collection_def)
  have len: "4 \<le> length run_example"
    by (simp add: run_example_def)
  have ids: "map id_r (created run_example nothing_stored) = [''id-4'', ''id-5'', ''id-6'']"
    by (simp add: run_example_def addRegistrant_eq Let_def env_a_def env_b_def env_c_def)
  have three: "map id_r (collection (run (take 4 run_example) nothing_stored))
                 = [''id-4'', ''id-5'', ''id-6'']"
    by (simp add: run_example_def addRegistrant_eq updateRegistrant_eq Let_def env_a_def
        env_b_def env_c_def nothing_stored_def collection_def updatedRegistrant_def)
  have final: "map id_r (collection (run run_example nothing_stored)) = [''id-4'', ''id-6'']"
    by (simp add: run_example_def addRegistrant_eq updateRegistrant_eq deleteRegistrant_eq
        getAllRegistrants_eq getRegistrantById_eq Let_def env_a_def env_b_def env_c_def
        nothing_stored_def collection_def updatedRegistrant_def)
  from ids_unique [of run_example nothing_stored] h1 h2 h3 len ids three final show ?thesis
    by blast
qed

section \<open>Login\<close>

text \<open>
  Claim C8. \<open>login\<close> returns \<^verbatim>\<open>true\<close> if and only if the pair is \<^verbatim>\<open>'admin'\<close> and
  \<^verbatim>\<open>'admin123'\<close>. On success the in-memory flag is true and the session record
  \<^verbatim>\<open>{username, isAuthenticated: true}\<close> is held in memory and persisted under the key
  \<^verbatim>\<open>'admin'\<close>, so that after a restart (initial state, then the mount effect reading the
  storage) the flag is true again; the registrants are not touched. On any other pair
  \<open>login\<close> returns \<^verbatim>\<open>false\<close> and both the in-memory state and the storage are exactly as
  before.
\<close>

theorem login_result:
  "fst (login u p w) = (u = ''admin'' \<and> p = ''admin123'')
   \<and> (u = ''admin'' \<and> p = ''admin123'' \<longrightarrow>
        isAuthenticated_state (fst (snd (login u p w)))
        \<and> admin (fst (snd (login u p w))) = Some \<lparr> username = ''admin'', isAuthenticated = True \<rparr>
        \<and> admin_item (snd (snd (login u p w))) = Some \<lparr> username = ''admin'', isAuthenticated = True \<rparr>
        \<and> registrants_item (snd (snd (login u p w))) = registrants_item (snd w)
        \<and> isAuthenticated_state (fst (restart (snd (login u p w))))
        \<and> admin (fst (restart (snd (login u p w)))) = Some \<lparr> username = ''admin'', isAuthenticated = True \<rparr>
        \<and> snd (restart (snd (login u p w))) = snd (snd (login u p w)))
   \<and> (\<not> (u = ''admin'' \<and> p = ''admin123'') \<longrightarrow>
        fst (login u p w) = False \<and> snd (login u p w) = w)"
  by (simp add: login_def restart_def mountEffect_def initialAuthState_def Let_def)

theorem login_result_witness:
  "fst (login ''admin'' ''admin123'' (initialAuthState, nothing_stored)) = True
   \<and> isAuthenticated_state (fst (restart (snd (login ''admin'' ''admin123'' (initialAuthState, nothing_stored)))))
   \<and> fst (login ''admin'' ''Admin123'' (initialAuthState, nothing_stored)) = False
   \<and> snd (login ''admin'' ''Admin123'' (initialAuthState, nothing_stored)) = (initialAuthState, nothing_stored)
   \<and> isAuthenticated_state (fst (restart (snd (login ''admin'' ''Admin123'' (initialAuthState, nothing_stored))))) = False"
  using login_result [of "''admin''" "''admin123''" "(initialAuthState, nothing_stored)"]
    login_result [of "''admin''" "''Admin123''" "(initialAuthState, nothing_stored)"]
  by (simp add: restart_def mountEffect_def initialAuthState_def nothing_stored_def)

section \<open>Search\<close>



















section \<open>Pagination\<close>

lemma totalPages_bounds:
  assumes "0 < K"
  shows "K * (totalPages K xs - 1) < int (length xs) \<and> int (length xs) \<le> K * totalPages K xs"
proof -
  let ?q = "real (length xs) / real_of_int K"
  from assms have K: "0 < real_of_int K" by simp
  have "real_of_int (totalPages K xs - 1) < ?q"
    unfolding totalPages_def by linarith
  with K have "real_of_int (totalPages K xs - 1) * real_of_int K < real (length xs)"
    by (simp add: pos_less_divide_eq)
  then have "real_of_int (K * (totalPages K xs - 1)) < real_of_int (int (length xs))"
    by (simp add: mult.commute)
  then have lo: "K * (totalPages K xs - 1) < int (length xs)"
    by (simp only: of_int_less_iff)
  have "?q \<le> real_of_int (totalPages K xs)"
    unfolding totalPages_def by linarith
  with K have "real (length xs) \<le> real_of_int (totalPages K xs) * real_of_int K"
    by (simp add: pos_divide_le_eq)
  then have "real_of_int (int (length xs)) \<le> real_of_int (K * totalPages K xs)"
    by (simp add: mult.commute)
  then have hi: "int (length xs) \<le> K * totalPages K xs"
    by (simp only: of_int_le_iff)
  from lo hi show ?thesis ..
qed

lemma totalPages_div:
  assumes "0 < K"
  shows "totalPages K xs = (int (length xs) + K - 1) div K"
proof -
  let ?T = "totalPages K xs" and ?N = "int (length xs)"
  from totalPages_bounds [OF assms, of xs]
  have b: "K * ?T - K < ?N" "?N \<le> K * ?T"
    by (simp_all add: right_diff_distrib)
  have "(?N + K - 1) div K = ?T"
  proof (rule int_div_pos_eq)
    show "?N + K - 1 = K * ?T + (?N + K - 1 - K * ?T)" by simp
    show "0 \<le> ?N + K - 1 - K * ?T" using b(1) by simp
    show "?N + K - 1 - K * ?T < K" using b(2) by simp
  qed
  then show ?thesis by simp
qed

lemma length_slice:
  assumes "0 \<le> a" and "a \<le> b"
  shows "int (length (slice xs a b)) = min b (int (length xs)) - min a (int (length xs))"
  using assms by (auto simp: slice_def Let_def min_def)

lemma length_currentItems:
  assumes "0 < K" and "1 \<le> p"
  shows "int (length (currentItems K p xs))
           = min (p * K) (int (length xs)) - min (p * K - K) (int (length xs))"
proof -
  from assms have "0 \<le> (p - 1) * K"
    by simp
  then have "0 \<le> p * K - K"
    by (simp add: left_diff_distrib)
  moreover from assms have "p * K - K \<le> p * K"
    by simp
  ultimately show ?thesis
    by (simp add: currentItems_def Let_def length_slice)
qed

lemma totalPages_empty: "totalPages K [] = 0"
  by (simp add: totalPages_def)

text \<open>
  Claim C7. For a filtered listing of \<open>N\<close> records and a page size \<open>K > 0\<close> (the
  component fixes \<open>K = 5\<close>), the number of pages is the ceiling of \<open>N / K\<close>, which is
  \<open>(N + K - 1) div K\<close>. Pages are numbered from 1 to \<open>totalPages\<close>: every page before
  the last holds exactly \<open>K\<close> items and the last page holds exactly
  \<open>N - K * (totalPages - 1)\<close> items. (An empty listing has no page: \<open>totalPages\<close> is 0.)
\<close>

theorem pagination:
  assumes "0 < K"
  shows "totalPages K xs = \<lceil>real (length xs) / real_of_int K\<rceil>
       \<and> totalPages K xs = (int (length xs) + K - 1) div K
       \<and> (\<forall>p. 1 \<le> p \<and> p < totalPages K xs \<longrightarrow> int (length (currentItems K p xs)) = K)
       \<and> (1 \<le> totalPages K xs \<longrightarrow>
            int (length (currentItems K (totalPages K xs) xs))
              = int (length xs) - K * (totalPages K xs - 1))"
proof -
  let ?T = "totalPages K xs" and ?N = "int (length xs)"
  from totalPages_bounds [OF assms, of xs]
  have b: "K * ?T - K < ?N" "?N \<le> K * ?T"
    by (simp_all add: right_diff_distrib)
  have inner: "int (length (currentItems K p xs)) = K" if p: "1 \<le> p" "p < ?T" for p
  proof -
    from p(2) have "p + 1 \<le> ?T" by simp
    with assms have "K * (p + 1) \<le> K * ?T"
      by (simp only: mult_le_cancel_left_pos)
    then have "p * K \<le> K * ?T - K"
      by (simp add: algebra_simps)
    with b(1) have "p * K < ?N" by simp
    with assms show ?thesis
      using length_currentItems [OF assms p(1), of xs] by simp
  qed
  have last: "int (length (currentItems K ?T xs)) = ?N - K * (?T - 1)" if t: "1 \<le> ?T"
  proof -
    from b have "min (?T * K) ?N = ?N" "min (?T * K - K) ?N = ?T * K - K"
      by (simp_all add: mult.commute)
    then show ?thesis
      using length_currentItems [OF assms t, of xs] by (simp add: algebra_simps)
  qed
  have c: "?T = \<lceil>real (length xs) / real_of_int K\<rceil>"
    by (simp add: totalPages_def)
  from c totalPages_div [OF assms, of xs] inner last show ?thesis
    by blast
qed

theorem pagination_witness:
  "totalPages itemsPerPage [1, 2, 3, 4, 5, 6, 7 :: nat] = 2
   \<and> currentItems itemsPerPage 1 [1, 2, 3, 4, 5, 6, 7 :: nat] = [1, 2, 3, 4, 5]
   \<and> currentItems itemsPerPage 2 [1, 2, 3, 4, 5, 6, 7 :: nat] = [6, 7]"
  using pagination [of itemsPerPage "[1, 2, 3, 4, 5, 6, 7 :: nat]"]
  by (simp add: itemsPerPage_def currentItems_def slice_def Let_def)

end
